theory Spec2Isabelle
  imports Complex_Main "HOL-Library.Word" "HOL-Library.DAList" "HOL-Library.Sublist"
begin

section \<open>JavaScript values used by index.js\<close>

text \<open>
  A JavaScript string is a sequence of UTF-16 code units: \<open>charCodeAt\<close>, \<open>length\<close>,
  \<open>includes\<close>, \<open>split\<close> and \<open>trim\<close> all work on code units. String literals of the
  source that are plain ASCII are written \<open>ascii ''...''\<close>.
\<close>

type_synonym jsstring = "16 word list"

definition ascii :: "string \<Rightarrow> jsstring" where
  "ascii s = map (\<lambda>c. word_of_nat (of_char c)) s"

text \<open>
  \<open>String.prototype.trim\<close> removes WhiteSpace and LineTerminator code units (ECMAScript
  12.2 and 12.3) from both ends.
\<close>

definition isWhiteSpace :: "16 word \<Rightarrow> bool" where
  "isWhiteSpace c =
     (c \<in> set [0x9, 0xA, 0xB, 0xC, 0xD, 0x20, 0xA0, 0x1680, 0x2028, 0x2029, 0x202F, 0x205F,
                0x3000, 0xFEFF]
      \<or> (0x2000 \<le> c \<and> c \<le> 0x200A))"

definition trim :: "jsstring \<Rightarrow> jsstring" where
  "trim s = rev (dropWhile isWhiteSpace (rev (dropWhile isWhiteSpace s)))"

text \<open>\<open>str.split(sep)\<close> for a separator of one code unit; \<open>''.split(sep)\<close> is \<open>['']\<close>.\<close>

fun split :: "16 word \<Rightarrow> jsstring \<Rightarrow> jsstring list" where
  "split sep [] = [[]]"
| "split sep (c # cs) =
     (if c = sep then [] # split sep cs
      else (case split sep cs of [] \<Rightarrow> [[c]] | p # ps \<Rightarrow> (c # p) # ps))"

text \<open>\<open>t.includes(tok)\<close>: \<open>tok\<close> occurs in \<open>t\<close> as a contiguous run of code units.\<close>

fun includes_str :: "jsstring \<Rightarrow> jsstring \<Rightarrow> bool" where
  "includes_str [] tok = (tok = [])"
| "includes_str (c # cs) tok = (prefix tok (c # cs) \<or> includes_str cs tok)"

text \<open>\<open>xs.join(sep)\<close> on an array of strings.\<close>

fun join :: "jsstring \<Rightarrow> jsstring list \<Rightarrow> jsstring" where
  "join sep [] = []"
| "join sep [x] = x"
| "join sep (x # y # ys) = x @ sep @ join sep (y # ys)"

text \<open>\<open>.filter(Boolean)\<close> on an array of strings keeps the non-empty ones.\<close>

definition filter_Boolean :: "jsstring list \<Rightarrow> jsstring list" where
  "filter_Boolean xs = filter (\<lambda>s. s \<noteq> []) xs"

text \<open>\<open>process.env.X || d\<close>: the default is taken when the variable is unset or empty.\<close>

definition env_or :: "jsstring option \<Rightarrow> jsstring \<Rightarrow> jsstring" where
  "env_or v d = (case v of None \<Rightarrow> d | Some s \<Rightarrow> if s = [] then d else s)"

text \<open>
  \<open>String.prototype.toLowerCase\<close> belongs to the runtime (the Unicode case mapping); the
  functions that call it take it as the parameter \<open>toLowerCase\<close>. On strings of Basic
  Latin code units it is the following function, which the examples use.
\<close>

definition toLowerCase_latin :: "jsstring \<Rightarrow> jsstring" where
  "toLowerCase_latin s = map (\<lambda>c. if 0x41 \<le> c \<and> c \<le> 0x5A then c + 0x20 else c) s"

text \<open>
  Numbers: the integers of index.js (hash accumulator, epoch milliseconds) are exact
  doubles, modelled as \<open>int\<close>. \<open>ToInt32\<close> is the conversion done by \<open><<\<close> and \<open>|\<close>;
  \<open>String(h)\<close> of an integer is its decimal numeral with a leading minus sign.
\<close>

definition ToInt32 :: "int \<Rightarrow> int" where
  "ToInt32 x = (x + 2 ^ 31) mod 2 ^ 32 - 2 ^ 31"

fun digits :: "nat \<Rightarrow> jsstring" where
  "digits n =
     (if n < 10 then [word_of_nat (48 + n)]
      else digits (n div 10) @ [word_of_nat (48 + n mod 10)])"

declare digits.simps [simp del]

definition String_int :: "int \<Rightarrow> jsstring" where
  "String_int i = (if i < 0 then 0x2D # digits (nat (- i)) else digits (nat i))"

text \<open>
  The decimal numerals, said without \<open>String\<close>: a digit is a code unit from \<open>0\<close> to \<open>9\<close>,
  and a row of digits has the value that reading it from the left gives.
\<close>

definition is_digit :: "16 word \<Rightarrow> bool" where
  "is_digit c = (0x30 \<le> c \<and> c \<le> 0x39)"

definition decimal_value :: "jsstring \<Rightarrow> nat" where
  "decimal_value ds = foldl (\<lambda>a c. 10 * a + (unat c - 48)) 0 ds"

text \<open>
  A Number that is not known to be an integer (the TTL of the configuration and what is
  computed from it): \<open>NaN\<close>, an infinity, or a double, given by the real it stands for.
  The arithmetic of doubles rounds; \<open>*\<close> and \<open>-\<close> on Numbers are the parameters \<open>mul\<close> and
  \<open>sub\<close> of the function that computes with them.
\<close>

datatype number = NaN | Num real | Infinity | Minus_Infinity

text \<open>An error value thrown or rejected with; \<open>Undefined\<close> is \<open>throw undefined\<close>.\<close>

datatype error = Error jsstring | Undefined


section \<open>Configuration (lines 15-34)\<close>

text \<open>
  The default of \<open>KEYWORDS\<close> (line 24): four rules in Cyrillic and Latin script,
  "Kairat&Real" and "Real Madrid" in each.
\<close>

definition DEFAULT_KEYWORDS :: jsstring where
  "DEFAULT_KEYWORDS =
     [0x41A, 0x430, 0x439, 0x440, 0x430, 0x442, 0x26, 0x420, 0x435, 0x430, 0x43B, 0x2C, 0x20,
      0x4B, 0x61, 0x69, 0x72, 0x61, 0x74, 0x26, 0x52, 0x65, 0x61, 0x6C, 0x2C, 0x20,
      0x420, 0x435, 0x430, 0x43B, 0x20, 0x41C, 0x430, 0x434, 0x440, 0x438, 0x434, 0x2C, 0x20,
      0x52, 0x65, 0x61, 0x6C, 0x20, 0x4D, 0x61, 0x64, 0x72, 0x69, 0x64]"

text \<open>Lines 24-27: split at commas, trim, drop the empty strings.\<close>

definition RAW_RULES :: "jsstring option \<Rightarrow> jsstring list" where
  "RAW_RULES KEYWORDS = filter_Boolean (map trim (split 0x2C (env_or KEYWORDS DEFAULT_KEYWORDS)))"

text \<open>Lines 28-30: each rule is lowercased, split at \<open>&\<close>, its tokens trimmed, empty tokens dropped.\<close>

definition RULES :: "(jsstring \<Rightarrow> jsstring) \<Rightarrow> jsstring option \<Rightarrow> jsstring list list" where
  "RULES toLowerCase KEYWORDS =
     map (\<lambda>rule. filter_Boolean (map trim (split 0x26 (toLowerCase rule)))) (RAW_RULES KEYWORDS)"

text \<open>
  The module constants the scan reads. \<open>NOTIFY_TTL_HOURS\<close> is \<open>Number(...)\<close> of an
  environment string: any Number, \<open>NaN\<close> for an unparsable value.
\<close>

record config =
  URLS :: "jsstring list"
  rules :: "jsstring list list"
  FORCE_NOTIFY :: bool
  NOTIFY_TTL_HOURS :: number
  DEEP_CHECK :: bool
  CHAT_ID :: jsstring


section \<open>Persistent state (lines 45-57)\<close>

text \<open>
  \<open>state.json\<close> holds two objects: \<open>notified\<close> from dedup key to the epoch milliseconds of
  the notification, \<open>lastHash\<close> from normalized href to the last fingerprint. A JavaScript
  object is a list of entries in insertion order with distinct keys. This is the state
  that \<open>prune\<close> and the scan work on; the reading of the file (\<open>loadState\<close>) is not part
  of the model.
\<close>

record state =
  notified :: "(jsstring, int) alist"
  lastHash :: "(jsstring, jsstring) alist"

text \<open>
  \<open>ts < cutoff\<close> for a timestamp and a Number: every comparison with \<open>NaN\<close> is false, every
  timestamp is below \<open>Infinity\<close> and none below \<open>-Infinity\<close>.
\<close>

definition js_less :: "int \<Rightarrow> number \<Rightarrow> bool" where
  "js_less ts cutoff =
     (case cutoff of
        NaN \<Rightarrow> False
      | Num c \<Rightarrow> real_of_int ts < c
      | Infinity \<Rightarrow> True
      | Minus_Infinity \<Rightarrow> False)"

text \<open>
  Line 52: \<open>Date.now() - NOTIFY_TTL_HOURS * 3600 * 1000\<close>, the product taken from the
  left, in the arithmetic of doubles. \<open>now\<close> is \<open>Date.now()\<close>, an integer.
\<close>

definition prune_cutoff ::
  "(number \<Rightarrow> number \<Rightarrow> number) \<Rightarrow> (number \<Rightarrow> number \<Rightarrow> number) \<Rightarrow> number \<Rightarrow> int \<Rightarrow> number" where
  "prune_cutoff mul sub ttl_hours now =
     sub (Num (real_of_int now)) (mul (mul ttl_hours (Num 3600)) (Num 1000))"

text \<open>
  \<open>prune\<close>: the loop runs over \<open>Object.entries(state.notified)\<close>, a snapshot taken before
  the first deletion, and deletes from the object itself.
\<close>

definition prune_step :: "number \<Rightarrow> jsstring \<times> int \<Rightarrow> (jsstring, int) alist \<Rightarrow> (jsstring, int) alist" where
  "prune_step cutoff e obj = (if js_less (snd e) cutoff then DAList.delete (fst e) obj else obj)"

definition prune ::
  "(number \<Rightarrow> number \<Rightarrow> number) \<Rightarrow> (number \<Rightarrow> number \<Rightarrow> number) \<Rightarrow> number \<Rightarrow> int \<Rightarrow> state \<Rightarrow> state" where
  "prune mul sub ttl_hours now st =
     (let cutoff = prune_cutoff mul sub ttl_hours now
      in st\<lparr>notified := fold (prune_step cutoff) (DAList.impl_of (notified st)) (notified st)\<rparr>)"


section \<open>Helpers (lines 59-84)\<close>

text \<open>
  \<open>hash\<close>: \<open>h << 5\<close> converts \<open>h\<close> to an int32, shifts and wraps; the subtraction and the
  addition of the code unit are exact on doubles; \<open>h |= 0\<close> wraps the sum to an int32.
\<close>

fun hash_loop :: "jsstring \<Rightarrow> int \<Rightarrow> int" where
  "hash_loop [] h = h"
| "hash_loop (chr # rest) h =
     hash_loop rest (ToInt32 ((ToInt32 (ToInt32 h * 2 ^ 5) - h) + uint chr))"

definition hash :: "jsstring \<Rightarrow> jsstring" where
  "hash str = (if str = [] then ascii ''0'' else String_int (hash_loop str 0))"

text \<open>
  \<open>new URL(href)\<close> is the runtime's WHATWG URL parser: it throws a TypeError (\<open>Inl\<close>) or
  gives a URL object, of which \<open>normalizeHref\<close> reads \<open>origin\<close> and \<open>pathname\<close>. The parser
  is the parameter \<open>new_URL\<close>.
\<close>

record url =
  origin :: jsstring
  pathname :: jsstring

definition normalizeHref :: "(jsstring \<Rightarrow> error + url) \<Rightarrow> jsstring \<Rightarrow> jsstring" where
  "normalizeHref new_URL href =
     (case new_URL href of Inr u \<Rightarrow> origin u @ pathname u | Inl e \<Rightarrow> href)"

text \<open>
  What the WHATWG parser returns on the hrefs of the examples below, as a table. An
  \<open>https\<close> URL has the origin \<open>scheme://host\<close> and its path; query and fragment belong to
  neither. A URL with the scheme \<open>view-source\<close> has an opaque path, which is its
  \<open>pathname\<close>, and an opaque origin, serialized \<open>null\<close>; \<open>nullhttps\<close> is a scheme like any
  other, not a special one, so its URL has an opaque origin too. A string without a
  scheme, such as \<open>/p?x=1\<close>, is rejected. The table stands for the parser on the hrefs it
  lists and on strings without a scheme only.
\<close>

definition URL_table :: "(jsstring \<times> url) list" where
  "URL_table =
     [(ascii ''https://s.kz/p?x=1#y'', \<lparr>origin = ascii ''https://s.kz'', pathname = ascii ''/p''\<rparr>),
      (ascii ''https://s.kz/p?x=2'', \<lparr>origin = ascii ''https://s.kz'', pathname = ascii ''/p''\<rparr>),
      (ascii ''https://s.kz/p'', \<lparr>origin = ascii ''https://s.kz'', pathname = ascii ''/p''\<rparr>),
      (ascii ''https://ticketon.kz/a/event/1'',
       \<lparr>origin = ascii ''https://ticketon.kz'', pathname = ascii ''/a/event/1''\<rparr>),
      (ascii ''https://ticketon.kz/a/event/2'',
       \<lparr>origin = ascii ''https://ticketon.kz'', pathname = ascii ''/a/event/2''\<rparr>),
      (ascii ''view-source:https://ticketon.kz/a/event/1'',
       \<lparr>origin = ascii ''null'', pathname = ascii ''https://ticketon.kz/a/event/1''\<rparr>),
      (ascii ''nullhttps://ticketon.kz/a/event/1'',
       \<lparr>origin = ascii ''null'', pathname = ascii ''/a/event/1''\<rparr>)]"

definition URL_examples :: "jsstring \<Rightarrow> error + url" where
  "URL_examples href =
     (case map_of URL_table href of
        Some u \<Rightarrow> Inr u
      | None \<Rightarrow> Inl (Error (ascii ''Invalid URL'')))"

text \<open>
  What the WHATWG parser returns on a plain \<open>http\<close> or \<open>https\<close> URL: the scheme in lower
  case and \<open>://\<close>; a host of lower-case letters in labels separated by single dots; a
  path of letters, digits, \<open>-\<close>, \<open>_\<close>, \<open>~\<close> and \<open>/\<close> that is empty or begins with \<open>/\<close>; then
  the end of the string, or a query (from \<open>?\<close>) or a fragment (from \<open>#\<close>). On such a
  string the parser finds no credentials and no port, maps the host to itself, and neither
  encodes a character of the path nor removes a segment from it: the origin is the
  scheme, \<open>://\<close> and the host, and the pathname is the path, \<open>/\<close> when it is empty.
  \<open>URL_plain\<close> is \<open>None\<close> on every other string. \<open>URL_with other\<close> is a parser that is the
  standard's on the plain URLs and \<open>other\<close> elsewhere.
\<close>

definition host_char :: "16 word \<Rightarrow> bool" where
  "host_char c = ((0x61 \<le> c \<and> c \<le> 0x7A) \<or> c = 0x2E)"

definition path_char :: "16 word \<Rightarrow> bool" where
  "path_char c =
     ((0x61 \<le> c \<and> c \<le> 0x7A) \<or> (0x41 \<le> c \<and> c \<le> 0x5A) \<or> (0x30 \<le> c \<and> c \<le> 0x39)
      \<or> c \<in> set [0x2D, 0x5F, 0x7E, 0x2F])"

definition plain_host :: "jsstring \<Rightarrow> bool" where
  "plain_host h = (h \<noteq> [] \<and> [] \<notin> set (split 0x2E h))"

definition plain_tail :: "jsstring \<Rightarrow> bool" where
  "plain_tail s = (s = [] \<or> hd s = 0x3F \<or> hd s = 0x23)"

definition plain_rest :: "jsstring \<Rightarrow> jsstring \<Rightarrow> url option" where
  "plain_rest scheme s =
     (let host = takeWhile host_char s;
          s1 = dropWhile host_char s;
          path = takeWhile path_char s1;
          s2 = dropWhile path_char s1
      in if plain_host host \<and> (path = [] \<or> hd path = 0x2F) \<and> plain_tail s2
         then Some \<lparr>origin = scheme @ host, pathname = (if path = [] then [0x2F] else path)\<rparr>
         else None)"

definition URL_plain :: "jsstring \<Rightarrow> url option" where
  "URL_plain x =
     (if prefix (ascii ''https://'') x then plain_rest (ascii ''https://'') (drop 8 x)
      else if prefix (ascii ''http://'') x then plain_rest (ascii ''http://'') (drop 7 x)
      else None)"

definition URL_with :: "(jsstring \<Rightarrow> error + url) \<Rightarrow> jsstring \<Rightarrow> error + url" where
  "URL_with other x = (case URL_plain x of Some u \<Rightarrow> Inr u | None \<Rightarrow> other x)"

text \<open>
  \<open>matchesKeywords\<close>: \<open>RULES.some(tokens => tokens.every(tok => t.includes(tok)))\<close>, with
  the loaded rule set as the parameter \<open>rs\<close>; \<open>text || ''\<close> is \<open>text\<close> for a string.
\<close>

definition matchesKeywords :: "(jsstring \<Rightarrow> jsstring) \<Rightarrow> jsstring list list \<Rightarrow> jsstring \<Rightarrow> bool" where
  "matchesKeywords toLowerCase rs text_js =
     (let t = toLowerCase text_js
      in list_ex (\<lambda>tokens. list_all (\<lambda>tok. includes_str t tok) tokens) rs)"


section \<open>Navigation and fingerprinting (lines 86-136)\<close>

text \<open>
  \<open>gotoWithRetry\<close>: \<open>goto i\<close> is what the \<open>i\<close>-th call of \<open>page.goto\<close> does, \<open>None\<close> for a
  page that loaded and \<open>Some e\<close> for a rejection. The loop returns at the first success and
  throws the last error once the attempts are used up.
\<close>

fun gotoWithRetry_loop :: "(nat \<Rightarrow> error option) \<Rightarrow> nat \<Rightarrow> nat \<Rightarrow> error \<Rightarrow> error + unit" where
  "gotoWithRetry_loop goto i 0 lastErr = Inl lastErr"
| "gotoWithRetry_loop goto i (Suc n) lastErr =
     (case goto i of None \<Rightarrow> Inr () | Some e \<Rightarrow> gotoWithRetry_loop goto (Suc i) n e)"

definition gotoWithRetry :: "(nat \<Rightarrow> error option) \<Rightarrow> nat \<Rightarrow> error + unit" where
  "gotoWithRetry goto attempts = gotoWithRetry_loop goto 0 attempts Undefined"

text \<open>
  The five fields that \<open>page.evaluate\<close> returns from a detail page, and the string that
  is digested (lines 125-127).
\<close>

record fields =
  title :: jsstring
  dates :: jsstring
  buttons :: jsstring
  prices :: jsstring
  body :: jsstring

definition fpString :: "fields \<Rightarrow> jsstring" where
  "fpString fp =
     join (ascii '' || '') (filter_Boolean [title fp, dates fp, buttons fp, prices fp])
       @ ascii '' || '' @ body fp"

text \<open>
  What the browser does with one detail page: \<open>context.newPage()\<close>, the attempts of
  \<open>page.goto\<close>, \<open>page.evaluate\<close> and \<open>page.close()\<close>. \<open>waitForLoadState\<close> has its own
  \<open>.catch\<close> and never fails.
\<close>

record detail_page =
  newPage :: "error option"
  goto :: "nat \<Rightarrow> error option"
  evaluate :: "error + fields"
  close :: "error option"

text \<open>
  \<open>fingerprintEventPage\<close>: \<open>newPage\<close> is called before the \<open>try\<close>; the \<open>catch\<close> covers
  navigation and extraction; \<open>page.close()\<close> runs in the \<open>finally\<close>, and an error thrown
  there replaces the value returned.
\<close>

definition fingerprintEventPage :: "detail_page \<Rightarrow> jsstring \<Rightarrow> error + jsstring" where
  "fingerprintEventPage browser href =
     (case newPage browser of
        Some e \<Rightarrow> Inl e
      | None \<Rightarrow>
          (let result =
             (case gotoWithRetry (goto browser) 2 of
                Inl e \<Rightarrow> hash href
              | Inr u \<Rightarrow>
                  (case evaluate browser of
                     Inl e \<Rightarrow> hash href
                   | Inr fp \<Rightarrow> hash (fpString fp)))
           in case close browser of Some e \<Rightarrow> Inl e | None \<Rightarrow> Inr result))"


section \<open>Candidates (lines 139-154 and 187-196)\<close>

text \<open>
  The regular expression \<open>/ticketon\.kz\/.+\/event\//\<close>, unanchored: \<open>.\<close> is any code unit
  but a line terminator, \<open>.+\<close> at least one of them.
\<close>

definition isLineTerminator :: "16 word \<Rightarrow> bool" where
  "isLineTerminator c = (c \<in> set [0xA, 0xD, 0x2028, 0x2029])"

fun dot_plus_then :: "jsstring \<Rightarrow> jsstring \<Rightarrow> bool" where
  "dot_plus_then lit [] = False"
| "dot_plus_then lit (c # cs) = (\<not> isLineTerminator c \<and> (prefix lit cs \<or> dot_plus_then lit cs))"

fun isTicketonEvent :: "jsstring \<Rightarrow> bool" where
  "isTicketonEvent [] = False"
| "isTicketonEvent (c # cs) =
     ((prefix (ascii ''ticketon.kz/'') (c # cs)
         \<and> dot_plus_then (ascii ''/event/'') (drop 12 (c # cs)))
      \<or> isTicketonEvent cs)"

text \<open>An anchor as \<open>page.$$eval\<close> returns it: the resolved href and the trimmed text.\<close>

record anchor =
  href :: jsstring
  text_js :: jsstring


text \<open>
  Lines 187-196: one item for each normalized href, the first anchor winning. \<open>seen\<close> is
  the set of the keys met so far; \<open>item.href || page.url()\<close> is the page's URL for an
  empty href.
\<close>

record item = anchor +
  normHref :: jsstring



section \<open>The scan of the targets (lines 172-236)\<close>

text \<open>
  Lines 199-213. \<open>fp\<close> is what \<open>fingerprintEventPage\<close> returned or threw; it is asked for
  only in the first branch. \<open>Boolean(lastHash && lastHash !== contentHash)\<close>: an absent
  entry is \<open>undefined\<close> and an empty string is falsy.
\<close>

definition changed_flag :: "jsstring option \<Rightarrow> jsstring \<Rightarrow> bool" where
  "changed_flag lastHash_norm contentHash =
     (case lastHash_norm of None \<Rightarrow> False | Some h \<Rightarrow> h \<noteq> [] \<and> h \<noteq> contentHash)"

definition resolveKey ::
  "bool \<Rightarrow> state \<Rightarrow> item \<Rightarrow> error + jsstring \<Rightarrow> error + (jsstring \<times> bool \<times> state)" where
  "resolveKey deep st it fp =
     (let isEvent = isTicketonEvent (href it); norm = normHref it
      in if isEvent \<and> deep then
           (case fp of
              Inl e \<Rightarrow> Inl e
            | Inr contentHash \<Rightarrow>
                Inr (norm @ ascii ''|'' @ contentHash,
                     changed_flag (DAList.lookup (lastHash st) norm) contentHash,
                     st\<lparr>lastHash := DAList.update norm contentHash (lastHash st)\<rparr>))
         else Inr (norm, False, st))"

text \<open>
  Line 216: the candidate is skipped when \<open>state.notified[key] && !FORCE_NOTIFY\<close>. The
  entry is \<open>undefined\<close> when the key is absent, and the number 0 is falsy.
  \<open>shouldNotify\<close> is the negation of that test. A dedup key begins with the origin and
  path of a URL or is an href with \<open>ticketon.kz/\<close> in it, so the lookup never meets a
  member of \<open>Object.prototype\<close>.
\<close>

definition shouldNotify :: "state \<Rightarrow> jsstring \<Rightarrow> bool \<Rightarrow> bool" where
  "shouldNotify st key force =
     (\<not> ((case DAList.lookup (notified st) key of None \<Rightarrow> False | Some ts \<Rightarrow> ts \<noteq> 0)
          \<and> \<not> force))"

text \<open>Line 228: \<open>state.notified[key] = Date.now()\<close>.\<close>

definition recordNotified :: "state \<Rightarrow> jsstring \<Rightarrow> int \<Rightarrow> state" where
  "recordNotified st key now = st\<lparr>notified := DAList.update key now (notified st)\<rparr>"

text \<open>
  The message of lines 218-225, by its lines: the header, the link, the text line for a
  non-empty text, the line about changes, and the source target.
\<close>

record message =
  chat :: jsstring
  link :: jsstring
  text_line :: "jsstring option"
  changed_line :: bool
  source :: jsstring

definition compose_message :: "jsstring \<Rightarrow> jsstring \<Rightarrow> jsstring \<Rightarrow> item \<Rightarrow> bool \<Rightarrow> message" where
  "compose_message chat_id target page_url it changed =
     \<lparr>chat = chat_id,
      link = (if href it = [] then page_url else href it),
      text_line = (if text_js it = [] then None else Some (text_js it)),
      changed_line = changed,
      source = target\<rparr>"

text \<open>
  What the world answers during a cycle: the runtime's \<open>toLowerCase\<close> and URL parser, the
  attempts of \<open>page.goto\<close> on a target, the anchors of the loaded page (or the error of
  \<open>page.evaluate\<close> or \<open>page.$$eval\<close>), the page's URL, the browser on a detail page of a
  target, \<open>bot.sendMessage\<close>, \<open>fs.writeFileSync\<close>, and the clock read when a notification of
  a target is recorded.
\<close>

record world =
  toLowerCase :: "jsstring \<Rightarrow> jsstring"
  new_URL :: "jsstring \<Rightarrow> error + url"
  goto_target :: "jsstring \<Rightarrow> nat \<Rightarrow> error option"
  page_anchors :: "jsstring \<Rightarrow> error + anchor list"
  page_url :: "jsstring \<Rightarrow> jsstring"
  detail :: "jsstring \<Rightarrow> jsstring \<Rightarrow> detail_page"
  sendMessage :: "message \<Rightarrow> error option"
  writeFile :: "state \<Rightarrow> error option"
  Date_now :: "jsstring \<Rightarrow> jsstring \<Rightarrow> int"

text \<open>
  What a cycle does to the outside: the targets it logs, the counts it logs, the
  messages it hands to the bot, the states it writes to the file, and the errors it logs.
\<close>

datatype event =
  Watch jsstring
| Candidates nat
| Unique nat
| Send message
| Save state
| Failed jsstring error

text \<open>
  Lines 199-230 for one item. The result is the error that left the loop, if any, the
  state in memory and the events.
\<close>

definition process_item ::
  "config \<Rightarrow> world \<Rightarrow> jsstring \<Rightarrow> state \<Rightarrow> item \<Rightarrow> error option \<times> state \<times> event list" where
  "process_item c w target st it =
     (case resolveKey (DEEP_CHECK c) st it
             (fingerprintEventPage (detail w target (href it)) (href it)) of
        Inl e \<Rightarrow> (Some e, st, [])
      | Inr (key, changed, st1) \<Rightarrow>
          if \<not> shouldNotify st1 key (FORCE_NOTIFY c) then (None, st1, [])
          else
            (let msg = compose_message (CHAT_ID c) target (page_url w target) it changed
             in case sendMessage w msg of
                  Some e \<Rightarrow> (Some e, st1, [Send msg])
                | None \<Rightarrow>
                    (let st2 = recordNotified st1 key (Date_now w target key)
                     in case writeFile w st2 of
                          Some e \<Rightarrow> (Some e, st2, [Send msg])
                        | None \<Rightarrow> (None, st2, [Send msg, Save st2]))))"





text \<open>
  A state whose entries of \<open>lastHash\<close> are fingerprints: none of them is the empty string.
\<close>

definition fingerprints_stored :: "state \<Rightarrow> bool" where
  "fingerprints_stored st = ([] \<notin> snd ` set (DAList.impl_of (lastHash st)))"



section \<open>An example page\<close>

text \<open>
  The inputs of the examples: a listing page with two anchors to detail pages, a
  configuration without deep check, a world in which every page loads and every file
  write succeeds, and a bot that rejects the message about the first anchor.
\<close>

definition example_target :: jsstring where
  "example_target = ascii ''https://ticketon.kz/sports''"

definition example_anchor1 :: anchor where
  "example_anchor1 = \<lparr>href = ascii ''https://ticketon.kz/a/event/1'', text_js = ascii ''Real Madrid''\<rparr>"

definition example_anchor2 :: anchor where
  "example_anchor2 = \<lparr>href = ascii ''https://ticketon.kz/a/event/2'', text_js = ascii ''Kairat - Real''\<rparr>"

definition example_config :: config where
  "example_config =
     \<lparr>URLS = [example_target],
      rules = [[ascii ''kairat'', ascii ''real''], [ascii ''real madrid'']],
      FORCE_NOTIFY = False, NOTIFY_TTL_HOURS = Num 48, DEEP_CHECK = False,
      CHAT_ID = ascii ''42''\<rparr>"

definition example_world :: "(message \<Rightarrow> error option) \<Rightarrow> world" where
  "example_world send =
     \<lparr>toLowerCase = toLowerCase_latin,
      new_URL = URL_examples,
      goto_target = (\<lambda>target i. None),
      page_anchors = (\<lambda>target. Inr [example_anchor1, example_anchor2]),
      page_url = (\<lambda>target. target),
      detail = (\<lambda>target h. \<lparr>newPage = None, goto = (\<lambda>i. None), evaluate = Inl Undefined, close = None\<rparr>),
      sendMessage = send,
      writeFile = (\<lambda>st. None),
      Date_now = (\<lambda>target key. 1700000000000)\<rparr>"


definition example_message :: "anchor \<Rightarrow> message" where
  "example_message a =
     \<lparr>chat = ascii ''42'', link = href a, text_line = Some (text_js a), changed_line = False,
      source = example_target\<rparr>"


text \<open>
  The product and the difference of doubles on the operands of the examples: with a
  \<open>NaN\<close> operand the result is \<open>NaN\<close>; finite operands whose exact result is an integer
  below \<open>2 ^ 53\<close> in size give that result. Infinite operands do not occur in the
  examples.
\<close>

definition example_mul :: "number \<Rightarrow> number \<Rightarrow> number" where
  "example_mul a b = (case (a, b) of (Num x, Num y) \<Rightarrow> Num (x * y) | _ \<Rightarrow> NaN)"

definition example_sub :: "number \<Rightarrow> number \<Rightarrow> number" where
  "example_sub a b = (case (a, b) of (Num x, Num y) \<Rightarrow> Num (x - y) | _ \<Rightarrow> NaN)"



section \<open>The digest\<close>

lemma ToInt32_sint: "ToInt32 x = sint (word_of_int x :: 32 word)"
  unfolding ToInt32_def
  by (simp add: sint_uint signed_take_bit_eq_take_bit_shift take_bit_eq_mod uint_word_of_int
      mod_add_left_eq)

lemma ToInt32_lower: "- (2 ^ 31) \<le> ToInt32 x"
  unfolding ToInt32_def by simp

lemma ToInt32_upper: "ToInt32 x < 2 ^ 31"
proof -
  have "(x + 2 ^ 31) mod 2 ^ 32 < (2 ^ 32 :: int)" by simp
  then show ?thesis unfolding ToInt32_def by simp
qed

lemma ToInt32_id: "- (2 ^ 31) \<le> x \<Longrightarrow> x < 2 ^ 31 \<Longrightarrow> ToInt32 x = x"
  unfolding ToInt32_def by simp

lemma word_of_ToInt32: "(word_of_int (ToInt32 x) :: 32 word) = word_of_int x"
  by (simp add: ToInt32_sint)

lemma hash_loop_range:
  "- (2 ^ 31) \<le> h \<Longrightarrow> h < 2 ^ 31 \<Longrightarrow> - (2 ^ 31) \<le> hash_loop str h \<and> hash_loop str h < 2 ^ 31"
proof (induction str arbitrary: h)
  case Nil
  then show ?case by simp
next
  case (Cons chr rest)
  have "- (2 ^ 31) \<le> hash_loop rest (ToInt32 ((ToInt32 (ToInt32 h * 2 ^ 5) - h) + uint chr))
        \<and> hash_loop rest (ToInt32 ((ToInt32 (ToInt32 h * 2 ^ 5) - h) + uint chr)) < 2 ^ 31"
    by (rule Cons.IH) (rule ToInt32_lower, rule ToInt32_upper)
  then show ?case by (simp only: hash_loop.simps)
qed

text \<open>One round of the loop on 32-bit words: \<open>h\<close> becomes \<open>31 * h + chr\<close>.\<close>

lemma hash_step_word:
  "(word_of_int (ToInt32 ((ToInt32 (ToInt32 h * 2 ^ 5) - h) + uint chr)) :: 32 word)
     = 31 * word_of_int h + ucast (chr :: 16 word)"
proof -
  have "(word_of_int (ToInt32 ((ToInt32 (ToInt32 h * 2 ^ 5) - h) + uint chr)) :: 32 word)
      = word_of_int ((ToInt32 (ToInt32 h * 2 ^ 5) - h) + uint chr)"
    by (rule word_of_ToInt32)
  also have "\<dots> = word_of_int (ToInt32 (ToInt32 h * 2 ^ 5)) - word_of_int h + word_of_int (uint chr)"
    by (simp only: wi_hom_syms)
  also have "\<dots> = word_of_int (ToInt32 h) * 2 ^ 5 - word_of_int h + word_of_int (uint chr)"
    by (simp only: word_of_ToInt32 wi_hom_syms word_of_int_power_hom word_of_int_2p of_int_power
        of_int_numeral)
  also have "\<dots> = word_of_int h * 32 - word_of_int h + word_of_int (uint chr)"
    by (simp only: word_of_ToInt32) simp
  also have "\<dots> = 31 * word_of_int h + ucast chr"
    by simp
  finally show ?thesis .
qed

lemma hash_loop_word:
  "(word_of_int (hash_loop str h) :: 32 word)
     = fold (\<lambda>chr w. 31 * w + ucast chr) str (word_of_int h)"
proof (induction str arbitrary: h)
  case Nil
  show ?case by simp
next
  case (Cons chr rest)
  show ?case
    by (simp only: hash_loop.simps fold_Cons o_apply Cons.IH hash_step_word)
qed

lemma ascii_zero: "ascii ''0'' = String_int 0"
  by (simp add: ascii_def String_int_def digits.simps)

lemma hash_hello: "hash (ascii ''hello'') = ascii ''99162322''"
  by (simp add: hash_def ascii_def ToInt32_def String_int_def digits.simps)

lemma hash_negative: "hash (ascii ''zzzzzzzz'') = ascii ''-1910022912''"
  by (simp add: hash_def ascii_def ToInt32_def String_int_def digits.simps)

lemma digit_char:
  assumes "k < 10"
  shows "is_digit (word_of_nat (48 + k))"
    and "unat (word_of_nat (48 + k) :: 16 word) = 48 + k"
    and "(word_of_nat (48 + k) :: 16 word) = 0x30 \<longleftrightarrow> k = 0"
proof -
  have "unat (word_of_nat (48 + k) :: 16 word) = (48 + k) mod 2 ^ LENGTH(16)"
    by (rule unat_of_nat)
  also have "\<dots> = 48 + k"
    using assms by simp
  finally have u: "unat (word_of_nat (48 + k) :: 16 word) = 48 + k" .
  show "unat (word_of_nat (48 + k) :: 16 word) = 48 + k" by (rule u)
  show "is_digit (word_of_nat (48 + k))"
    using assms u by (simp add: is_digit_def word_le_nat_alt)
  show "(word_of_nat (48 + k) :: 16 word) = 0x30 \<longleftrightarrow> k = 0"
    using u by (auto simp: word_eq_iff_unsigned [where ?'a = nat])
qed

lemma decimal_value_snoc:
  "decimal_value (ds @ [c]) = 10 * decimal_value ds + (unat c - 48)"
  by (simp add: decimal_value_def)

lemma digits_numeral:
  "digits n \<noteq> []
   \<and> list_all is_digit (digits n)
   \<and> (digits n = [0x30] \<or> hd (digits n) \<noteq> 0x30)
   \<and> decimal_value (digits n) = n"
proof (induction n rule: digits.induct)
  case (1 n)
  show ?case
  proof (cases "n < 10")
    case True
    then have d: "digits n = [word_of_nat (48 + n)]"
      by (subst digits.simps) simp
    show ?thesis
      unfolding d using digit_char [OF True]
      by (auto simp: decimal_value_def)
  next
    case False
    then have d: "digits n = digits (n div 10) @ [word_of_nat (48 + n mod 10)]"
      by (subst digits.simps) simp
    have m: "n mod 10 < 10" by simp
    from "1.IH" False have ih:
      "digits (n div 10) \<noteq> []" "list_all is_digit (digits (n div 10))"
      "digits (n div 10) = [0x30] \<or> hd (digits (n div 10)) \<noteq> 0x30"
      "decimal_value (digits (n div 10)) = n div 10"
      by simp_all
    have z: "decimal_value [0x30 :: 16 word] = 0"
      by (simp add: decimal_value_def)
    from False have "n div 10 \<noteq> 0" by simp
    with ih(4) z have "digits (n div 10) \<noteq> [0x30]" by auto
    with ih(3) have h: "hd (digits (n div 10)) \<noteq> 0x30" by simp
    have v: "decimal_value (digits n) = n"
      unfolding d decimal_value_snoc ih(4) digit_char(2) [OF m] by simp
    from ih(1) ih(2) h v digit_char(1) [OF m] show ?thesis
      unfolding d by simp
  qed
qed

lemma String_int_numeral:
  "\<exists>ds. String_int i = (if i < 0 then [0x2D] else []) @ ds
     \<and> ds \<noteq> [] \<and> list_all is_digit ds \<and> (ds = [0x30] \<or> hd ds \<noteq> 0x30)
     \<and> int (decimal_value ds) = \<bar>i\<bar>"
proof (cases "i < 0")
  case True
  with digits_numeral [of "nat (- i)"] show ?thesis
    by (intro exI [of _ "digits (nat (- i))"]) (simp add: String_int_def)
next
  case False
  with digits_numeral [of "nat i"] show ?thesis
    by (intro exI [of _ "digits (nat i)"]) (simp add: String_int_def)
qed

text \<open>
  C10. \<open>hash\<close> is a total function of its string. Its result is the decimal numeral of
  the accumulator: a minus sign exactly when the accumulator is negative, then digits, at
  least one and without a leading zero unless the numeral is \<open>0\<close>, that read in base ten
  as the absolute value of the accumulator. The accumulator is an int32 (at least
  \<open>- 2 ^ 31\<close> and below \<open>2 ^ 31\<close>) and equals the signed reading of the 32-bit word
  computed by \<open>h := 31 * h + chr\<close> with every step taken modulo \<open>2 ^ 32\<close>; the empty
  string gives \<open>0\<close>.
\<close>

theorem hash_decimal_int32:
  "(\<exists>ds. hash str = (if hash_loop str 0 < 0 then [0x2D] else []) @ ds
       \<and> ds \<noteq> [] \<and> list_all is_digit ds \<and> (ds = [0x30] \<or> hd ds \<noteq> 0x30)
       \<and> int (decimal_value ds) = \<bar>hash_loop str 0\<bar>)
   \<and> - (2 ^ 31) \<le> hash_loop str 0 \<and> hash_loop str 0 < 2 ^ 31
   \<and> hash_loop str 0 = sint (fold (\<lambda>chr h. 31 * h + ucast chr) str (0 :: 32 word))
   \<and> hash [] = [0x30]"
proof -
  have r: "- (2 ^ 31) \<le> hash_loop str 0 \<and> hash_loop str 0 < 2 ^ 31"
    by (rule hash_loop_range) simp_all
  have "hash_loop str 0 = ToInt32 (hash_loop str 0)"
    using r by (simp add: ToInt32_id)
  also have "\<dots> = sint (word_of_int (hash_loop str 0) :: 32 word)"
    by (rule ToInt32_sint)
  also have "\<dots> = sint (fold (\<lambda>chr h. 31 * h + ucast chr) str (0 :: 32 word))"
    by (simp only: hash_loop_word) simp
  finally have w:
    "hash_loop str 0 = sint (fold (\<lambda>chr h. 31 * h + ucast chr) str (0 :: 32 word))" .
  have h: "hash str = String_int (hash_loop str 0)"
    by (cases str) (simp_all add: hash_def ascii_zero)
  have e: "hash [] = [0x30]"
    by (simp add: hash_def ascii_def)
  from String_int_numeral [of "hash_loop str 0"] h r w e show ?thesis
    by simp
qed

theorem hash_decimal_int32_witness:
  "hash (ascii ''zzzzzzzz'') = [0x2D, 0x31, 0x39, 0x31, 0x30, 0x30, 0x32, 0x32, 0x39, 0x31, 0x32]
   \<and> decimal_value [0x31, 0x39, 0x31, 0x30, 0x30, 0x32, 0x32, 0x39, 0x31, 0x32] = 1910022912
   \<and> sint (fold (\<lambda>chr h. 31 * h + ucast chr) (ascii ''zzzzzzzz'') (0 :: 32 word)) = - 1910022912"
proof -
  have a: "hash_loop (ascii ''zzzzzzzz'') 0 = - 1910022912"
    by (simp add: ascii_def ToInt32_def)
  have d: "decimal_value [0x31, 0x39, 0x31, 0x30, 0x30, 0x32, 0x32, 0x39, 0x31, 0x32 :: 16 word] = 1910022912"
    by (simp add: decimal_value_def)
  have s: "hash (ascii ''zzzzzzzz'') = [0x2D, 0x31, 0x39, 0x31, 0x30, 0x30, 0x32, 0x32, 0x39, 0x31, 0x32]"
    by (simp add: hash_def ascii_def ToInt32_def String_int_def digits.simps)
  from hash_decimal_int32 [of "ascii ''zzzzzzzz''"] a d s show ?thesis
    by simp
qed


section \<open>Rules and keyword matching\<close>

lemma includes_str_sublist: "includes_str t tok = sublist tok t"
  by (induction t) (simp_all add: sublist_Cons_right)

lemma includes_str_iff: "includes_str t tok \<longleftrightarrow> (\<exists>p s. t = p @ tok @ s)"
  by (simp add: includes_str_sublist sublist_def)

lemma matchesKeywords_iff:
  "matchesKeywords lc rs str
     \<longleftrightarrow> (\<exists>tokens \<in> set rs. \<forall>tok \<in> set tokens. \<exists>p s. lc str = p @ tok @ s)"
  by (simp add: matchesKeywords_def list_ex_iff list_all_iff includes_str_iff)

lemma ascii_simps:
  "ascii ''a&b,c'' = [0x61, 0x26, 0x62, 0x2C, 0x63]"
  "ascii ''a&b'' = [0x61, 0x26, 0x62]"
  "ascii ''a'' = [0x61]" "ascii ''b'' = [0x62]" "ascii ''c'' = [0x63]"
  "ascii ''&'' = [0x26]"
  by (simp_all add: ascii_def)

lemma isWhiteSpace_letters:
  "\<not> isWhiteSpace 0x61" "\<not> isWhiteSpace 0x62" "\<not> isWhiteSpace 0x63" "\<not> isWhiteSpace 0x26"
  by (simp_all add: isWhiteSpace_def)

lemma RAW_RULES_example: "RAW_RULES (Some (ascii ''a&b,c'')) = [ascii ''a&b'', ascii ''c'']"
  by (simp add: RAW_RULES_def env_or_def ascii_simps trim_def filter_Boolean_def isWhiteSpace_letters)

lemma RULES_example:
  assumes "lc (ascii ''a&b'') = ascii ''a&b''" and "lc (ascii ''c'') = ascii ''c''"
  shows "RULES lc (Some (ascii ''a&b,c'')) = [[ascii ''a'', ascii ''b''], [ascii ''c'']]"
  unfolding RULES_def RAW_RULES_example
  using assms
  by (simp add: ascii_simps trim_def filter_Boolean_def isWhiteSpace_letters)

text \<open>
  C5. \<open>matchesKeywords\<close> holds exactly when some rule of the set has every token
  occurring in the lowercased text as a contiguous substring. For the rule set loaded from
  \<open>a&b,c\<close> (by a \<open>toLowerCase\<close> that leaves these lowercase strings alone): a text whose
  lowercased form contains \<open>a\<close> and \<open>b\<close> but not \<open>c\<close> matches, one that contains \<open>a\<close> and
  neither \<open>b\<close> nor \<open>c\<close> does not, and one that contains \<open>c\<close> matches.
\<close>

theorem matchesKeywords_or_of_ands:
  "(matchesKeywords lc rs str
      \<longleftrightarrow> (\<exists>tokens \<in> set rs. \<forall>tok \<in> set tokens. \<exists>p s. lc str = p @ tok @ s))
   \<and> (lc (ascii ''a&b'') = ascii ''a&b'' \<and> lc (ascii ''c'') = ascii ''c'' \<longrightarrow>
        (includes_str (lc str) (ascii ''a'') \<and> includes_str (lc str) (ascii ''b'')
           \<and> \<not> includes_str (lc str) (ascii ''c'')
         \<longrightarrow> matchesKeywords lc (RULES lc (Some (ascii ''a&b,c''))) str)
      \<and> (includes_str (lc str) (ascii ''a'') \<and> \<not> includes_str (lc str) (ascii ''b'')
           \<and> \<not> includes_str (lc str) (ascii ''c'')
         \<longrightarrow> \<not> matchesKeywords lc (RULES lc (Some (ascii ''a&b,c''))) str)
      \<and> (includes_str (lc str) (ascii ''c'')
         \<longrightarrow> matchesKeywords lc (RULES lc (Some (ascii ''a&b,c''))) str))"
proof -
  have ex: "matchesKeywords lc (RULES lc (Some (ascii ''a&b,c''))) str
      \<longleftrightarrow> (includes_str (lc str) (ascii ''a'') \<and> includes_str (lc str) (ascii ''b''))
          \<or> includes_str (lc str) (ascii ''c'')"
    if "lc (ascii ''a&b'') = ascii ''a&b''" and "lc (ascii ''c'') = ascii ''c''"
    by (simp add: RULES_example [OF that] matchesKeywords_def Let_def)
  show ?thesis
    using matchesKeywords_iff [of lc rs str] ex by blast
qed

lemma toLowerCase_latin_examples:
  "toLowerCase_latin (ascii ''a&b'') = ascii ''a&b''"
  "toLowerCase_latin (ascii ''c'') = ascii ''c''"
  by (simp_all add: toLowerCase_latin_def ascii_simps)

theorem matchesKeywords_or_of_ands_witness:
  "matchesKeywords toLowerCase_latin (RULES toLowerCase_latin (Some (ascii ''a&b,c''))) (ascii ''Bar A'')
   \<and> \<not> matchesKeywords toLowerCase_latin (RULES toLowerCase_latin (Some (ascii ''a&b,c''))) (ascii ''A'')
   \<and> matchesKeywords toLowerCase_latin (RULES toLowerCase_latin (Some (ascii ''a&b,c''))) (ascii ''C'')"
proof -
  have 1: "includes_str (toLowerCase_latin (ascii ''Bar A'')) (ascii ''a'')
      \<and> includes_str (toLowerCase_latin (ascii ''Bar A'')) (ascii ''b'')
      \<and> \<not> includes_str (toLowerCase_latin (ascii ''Bar A'')) (ascii ''c'')"
    by (simp add: toLowerCase_latin_def ascii_def)
  have 2: "includes_str (toLowerCase_latin (ascii ''A'')) (ascii ''a'')
      \<and> \<not> includes_str (toLowerCase_latin (ascii ''A'')) (ascii ''b'')
      \<and> \<not> includes_str (toLowerCase_latin (ascii ''A'')) (ascii ''c'')"
    by (simp add: toLowerCase_latin_def ascii_def)
  have 3: "includes_str (toLowerCase_latin (ascii ''C'')) (ascii ''c'')"
    by (simp add: toLowerCase_latin_def ascii_def)
  show ?thesis
    using matchesKeywords_or_of_ands
        [of toLowerCase_latin "RULES toLowerCase_latin (Some (ascii ''a&b,c''))" "ascii ''Bar A''"]
      matchesKeywords_or_of_ands
        [of toLowerCase_latin "RULES toLowerCase_latin (Some (ascii ''a&b,c''))" "ascii ''A''"]
      matchesKeywords_or_of_ands
        [of toLowerCase_latin "RULES toLowerCase_latin (Some (ascii ''a&b,c''))" "ascii ''C''"]
      toLowerCase_latin_examples 1 2 3
    by blast
qed

text \<open>
  C4. The rules loaded from \<open>KEYWORDS = "&"\<close>: the rule string is not empty, so line 27
  keeps it; both of its tokens are empty, so line 29 drops them; the rule with no token
  stays in \<open>RULES\<close>, and \<open>matchesKeywords\<close> then holds of every text.
\<close>

theorem RULES_keeps_empty_rule:
  "RULES toLowerCase_latin (Some (ascii ''&'')) = [[]]
   \<and> (\<forall>str. matchesKeywords toLowerCase_latin (RULES toLowerCase_latin (Some (ascii ''&''))) str)"
proof -
  have "RULES toLowerCase_latin (Some (ascii ''&'')) = [[]]"
    by (simp add: RULES_def RAW_RULES_def env_or_def ascii_simps trim_def filter_Boolean_def
        isWhiteSpace_letters toLowerCase_latin_def)
  then show ?thesis by (simp add: matchesKeywords_def)
qed

text \<open>The tokens that are kept are trimmed and not empty.\<close>

lemma RULES_tokens:
  assumes "tokens \<in> set (RULES lc kw)" and "tok \<in> set tokens"
  shows "tok \<noteq> [] \<and> (\<exists>raw. tok = trim raw)"
  using assms by (auto simp: RULES_def filter_Boolean_def)


section \<open>Pruning\<close>

lemma impl_of_prune_step:
  "DAList.impl_of (prune_step c e al)
     = filter (\<lambda>x. \<not> (js_less (snd e) c \<and> fst x = fst e)) (DAList.impl_of al)"
proof (cases "js_less (snd e) c")
  case True
  have "AList.delete (fst e) (DAList.impl_of al) = filter (\<lambda>x. fst x \<noteq> fst e) (DAList.impl_of al)"
    by (auto simp: AList.delete_eq case_prod_beta intro!: filter_cong)
  with True show ?thesis by (simp add: prune_step_def delete.rep_eq)
next
  case False
  then show ?thesis by (simp add: prune_step_def)
qed

lemma impl_of_fold_prune_step:
  "DAList.impl_of (fold (prune_step c) es al)
     = filter (\<lambda>x. fst x \<notin> fst ` {e \<in> set es. js_less (snd e) c}) (DAList.impl_of al)"
proof (induction es arbitrary: al)
  case Nil
  show ?case by simp
next
  case (Cons e es)
  have "DAList.impl_of (fold (prune_step c) (e # es) al)
      = filter (\<lambda>x. fst x \<notin> fst ` {e \<in> set es. js_less (snd e) c})
          (filter (\<lambda>x. \<not> (js_less (snd e) c \<and> fst x = fst e)) (DAList.impl_of al))"
    by (simp add: Cons.IH impl_of_prune_step)
  also have "\<dots> = filter (\<lambda>x. fst x \<notin> fst ` {e' \<in> set (e # es). js_less (snd e') c}) (DAList.impl_of al)"
    by (auto intro!: filter_cong)
  finally show ?case .
qed

lemma distinct_fst_same:
  assumes "distinct (map fst xs)" and "x \<in> set xs" and "y \<in> set xs" and "fst x = fst y"
  shows "x = y"
  using assms by (metis eq_key_imp_eq_value prod.collapse)

lemma impl_of_prune_loop:
  "DAList.impl_of (fold (prune_step c) (DAList.impl_of al) al)
     = filter (\<lambda>x. \<not> js_less (snd x) c) (DAList.impl_of al)"
proof -
  have "filter (\<lambda>x. fst x \<notin> fst ` {e \<in> set (DAList.impl_of al). js_less (snd e) c}) (DAList.impl_of al)
      = filter (\<lambda>x. \<not> js_less (snd x) c) (DAList.impl_of al)"
  proof (rule filter_cong [OF refl])
    fix x assume x: "x \<in> set (DAList.impl_of al)"
    show "(fst x \<notin> fst ` {e \<in> set (DAList.impl_of al). js_less (snd e) c}) = (\<not> js_less (snd x) c)"
    proof
      assume "fst x \<notin> fst ` {e \<in> set (DAList.impl_of al). js_less (snd e) c}"
      with x show "\<not> js_less (snd x) c" by blast
    next
      assume n: "\<not> js_less (snd x) c"
      show "fst x \<notin> fst ` {e \<in> set (DAList.impl_of al). js_less (snd e) c}"
      proof
        assume "fst x \<in> fst ` {e \<in> set (DAList.impl_of al). js_less (snd e) c}"
        then obtain e where e: "e \<in> set (DAList.impl_of al)" "js_less (snd e) c" "fst x = fst e"
          by blast
        have "x = e"
          by (rule distinct_fst_same [OF impl_of_distinct x e(1) e(3)])
        with e(2) n show False by simp
      qed
    qed
  qed
  then show ?thesis by (simp only: impl_of_fold_prune_step)
qed

lemma map_of_kept_entry:
  assumes d: "distinct (map fst xs)" and m: "map_of xs k = Some v"
  shows "map_of (filter P xs) k = (if P (k, v) then Some v else None)"
proof (cases "P (k, v)")
  case True
  from m have "(k, v) \<in> set xs" by (rule map_of_SomeD)
  with True have "(k, v) \<in> set (filter P xs)" by simp
  moreover from d have "distinct (map fst (filter P xs))" by (rule distinct_map_filter)
  ultimately have "map_of (filter P xs) k = Some v" by (simp add: map_of_eq_Some_iff)
  with True show ?thesis by simp
next
  case False
  have "k \<notin> fst ` set (filter P xs)"
  proof
    assume "k \<in> fst ` set (filter P xs)"
    then obtain v' where v': "(k, v') \<in> set xs" "P (k, v')" by auto
    from d v'(1) have "map_of xs k = Some v'" by (simp add: map_of_eq_Some_iff)
    with m v'(2) False show False by simp
  qed
  then have "map_of (filter P xs) k = None" by (simp add: map_of_eq_None_iff)
  with False show ?thesis by simp
qed

lemma map_of_absent_entry:
  assumes "map_of xs k = None"
  shows "map_of (filter P xs) k = None"
proof -
  from assms have "k \<notin> fst ` set xs" by (simp add: map_of_eq_None_iff)
  then have "k \<notin> fst ` set (filter P xs)" by auto
  then show ?thesis by (simp add: map_of_eq_None_iff)
qed

lemma impl_of_prune:
  "DAList.impl_of (notified (prune mul sub ttl_hours now st))
     = filter (\<lambda>e. \<not> js_less (snd e) (prune_cutoff mul sub ttl_hours now))
         (DAList.impl_of (notified st))"
  by (simp add: prune_def Let_def impl_of_prune_loop)

lemma lookup_prune:
  "DAList.lookup (notified (prune mul sub ttl_hours now st)) key
     = (case DAList.lookup (notified st) key of
          None \<Rightarrow> None
        | Some ts \<Rightarrow> if js_less ts (prune_cutoff mul sub ttl_hours now) then None else Some ts)"
proof (cases "map_of (DAList.impl_of (notified st)) key")
  case None
  then show ?thesis
    unfolding lookup.rep_eq impl_of_prune by (simp add: map_of_absent_entry)
next
  case (Some ts)
  then show ?thesis
    unfolding lookup.rep_eq impl_of_prune by (simp add: map_of_kept_entry [OF impl_of_distinct])
qed

lemma lastHash_prune: "lastHash (prune mul sub ttl_hours now st) = lastHash st"
  by (simp add: prune_def Let_def)

text \<open>When the cutoff is \<open>NaN\<close>, as it is for an unparsable TTL, nothing is pruned.\<close>

lemma prune_NaN_cutoff:
  assumes "prune_cutoff mul sub ttl_hours now = NaN"
  shows "prune mul sub ttl_hours now st = st"
proof -
  have "DAList.impl_of (notified (prune mul sub ttl_hours now st)) = DAList.impl_of (notified st)"
    unfolding impl_of_prune assms by (simp add: js_less_def)
  then have "notified (prune mul sub ttl_hours now st) = notified st"
    by (rule alist_ext)
  then show ?thesis by (simp add: prune_def Let_def)
qed

text \<open>
  With a TTL of 48 hours at the clock 1700000000000 the cutoff is 1699827200000: the
  older of two entries is deleted.
\<close>

lemma prune_example:
  "DAList.impl_of (notified (prune example_mul example_sub (Num 48) 1700000000000
      \<lparr>notified = DAList.update (ascii ''b'') 1699999999000
                    (DAList.update (ascii ''a'') 1699000000000 DAList.empty),
       lastHash = DAList.empty\<rparr>))
   = [(ascii ''b'', 1699999999000)]"
  by (simp add: impl_of_prune prune_cutoff_def js_less_def example_mul_def example_sub_def
      update.rep_eq empty.rep_eq ascii_def)

text \<open>
  C6. \<open>prune\<close> keeps, in their order and with their timestamps, exactly the entries of
  \<open>notified\<close> whose timestamp is not below the cutoff
  \<open>Date.now() - NOTIFY_TTL_HOURS * 3600 * 1000\<close>, for every TTL, clock and state and whatever
  the arithmetic of doubles makes of the product and the difference (no entry is below
  \<open>NaN\<close> or \<open>-Infinity\<close>, every entry is below \<open>Infinity\<close>); looked up by key, an entry is
  gone when its timestamp is below the cutoff and unchanged otherwise; \<open>lastHash\<close> is as
  it was.
\<close>

theorem prune_only_expired_notified:
  "DAList.impl_of (notified (prune mul sub ttl_hours now st))
     = filter
         (\<lambda>e. \<not> (case sub (Num (real_of_int now)) (mul (mul ttl_hours (Num 3600)) (Num 1000)) of
                    NaN \<Rightarrow> False
                  | Num c \<Rightarrow> real_of_int (snd e) < c
                  | Infinity \<Rightarrow> True
                  | Minus_Infinity \<Rightarrow> False))
         (DAList.impl_of (notified st))
   \<and> DAList.lookup (notified (prune mul sub ttl_hours now st)) key
     = (case DAList.lookup (notified st) key of
          None \<Rightarrow> None
        | Some ts \<Rightarrow>
            if (case sub (Num (real_of_int now)) (mul (mul ttl_hours (Num 3600)) (Num 1000)) of
                  NaN \<Rightarrow> False
                | Num c \<Rightarrow> real_of_int ts < c
                | Infinity \<Rightarrow> True
                | Minus_Infinity \<Rightarrow> False)
            then None else Some ts)
   \<and> lastHash (prune mul sub ttl_hours now st) = lastHash st"
proof -
  have c: "prune_cutoff mul sub ttl_hours now
      = sub (Num (real_of_int now)) (mul (mul ttl_hours (Num 3600)) (Num 1000))"
    by (simp add: prune_cutoff_def)
  from impl_of_prune [of mul sub ttl_hours now st] lookup_prune [of mul sub ttl_hours now st key]
    lastHash_prune [of mul sub ttl_hours now st]
  show ?thesis unfolding c js_less_def by blast
qed


section \<open>Normalizing hrefs\<close>

lemma URL_examples_query:
  "URL_examples (ascii ''https://s.kz/p?x=1#y'')
     = Inr \<lparr>origin = ascii ''https://s.kz'', pathname = ascii ''/p''\<rparr>"
  by (simp add: URL_examples_def URL_table_def)

lemma URL_examples_query2:
  "URL_examples (ascii ''https://s.kz/p?x=2'')
     = Inr \<lparr>origin = ascii ''https://s.kz'', pathname = ascii ''/p''\<rparr>"
  by (simp add: URL_examples_def URL_table_def)

lemma URL_examples_key:
  "URL_examples (ascii ''https://s.kz/p'')
     = Inr \<lparr>origin = ascii ''https://s.kz'', pathname = ascii ''/p''\<rparr>"
  by (simp add: URL_examples_def URL_table_def)

lemma URL_examples_relative:
  "URL_examples (ascii ''/p?x=1'') = Inl (Error (ascii ''Invalid URL''))"
  by (simp add: URL_examples_def URL_table_def ascii_def)

lemma URL_examples_view_source:
  "URL_examples (ascii ''view-source:https://ticketon.kz/a/event/1'')
     = Inr \<lparr>origin = ascii ''null'', pathname = ascii ''https://ticketon.kz/a/event/1''\<rparr>"
  by (simp add: URL_examples_def URL_table_def ascii_def)

lemma URL_examples_nullhttps:
  "URL_examples (ascii ''nullhttps://ticketon.kz/a/event/1'')
     = Inr \<lparr>origin = ascii ''null'', pathname = ascii ''/a/event/1''\<rparr>"
  by (simp add: URL_examples_def URL_table_def ascii_def)

lemma key_append: "ascii ''https://s.kz'' @ ascii ''/p'' = ascii ''https://s.kz/p''"
  by (simp add: ascii_def)

text \<open>
  C8. \<open>normalizeHref\<close> is a total function of the href: when the parser gives a URL,
  the result is its origin followed by its path (the query and the fragment are not part
  of either); when the parser throws, the result is the href itself.
\<close>

theorem normalizeHref_total:
  "(\<forall>u. parse x = Inr u \<longrightarrow> normalizeHref parse x = origin u @ pathname u)
   \<and> (\<forall>e. parse x = Inl e \<longrightarrow> normalizeHref parse x = x)"
  by (simp add: normalizeHref_def)

theorem normalizeHref_total_witness:
  "normalizeHref URL_examples (ascii ''https://s.kz/p?x=1#y'') = ascii ''https://s.kz/p''
   \<and> normalizeHref URL_examples (ascii ''/p?x=1'') = ascii ''/p?x=1''"
  using normalizeHref_total [of URL_examples "ascii ''https://s.kz/p?x=1#y''"]
    normalizeHref_total [of URL_examples "ascii ''/p?x=1''"]
    URL_examples_query URL_examples_relative
  by (simp add: key_append)

text \<open>
  C9, as stated, fails: the key of \<open>view-source:https://ticketon.kz/a/event/1\<close> is
  \<open>null\<close> followed by the opaque path, which parses again, with the scheme \<open>nullhttps\<close>,
  to another origin and path.
\<close>

theorem normalizeHref_not_idempotent:
  "normalizeHref URL_examples
      (normalizeHref URL_examples (ascii ''view-source:https://ticketon.kz/a/event/1''))
   \<noteq> normalizeHref URL_examples (ascii ''view-source:https://ticketon.kz/a/event/1'')"
proof -
  have 1: "normalizeHref URL_examples (ascii ''view-source:https://ticketon.kz/a/event/1'')
      = ascii ''nullhttps://ticketon.kz/a/event/1''"
    by (simp add: normalizeHref_def URL_examples_view_source) (simp add: ascii_def)
  have 2: "normalizeHref URL_examples (ascii ''nullhttps://ticketon.kz/a/event/1'')
      = ascii ''null/a/event/1''"
    by (simp add: normalizeHref_def URL_examples_nullhttps) (simp add: ascii_def)
  have 3: "ascii ''null/a/event/1'' \<noteq> ascii ''nullhttps://ticketon.kz/a/event/1''"
    by (simp add: ascii_def)
  show ?thesis unfolding 1 2 by (rule 3)
qed

lemma slash_chars: "\<not> host_char 0x2F" "path_char 0x2F"
  by (simp_all add: host_char_def path_char_def)

lemma tail_chars: "\<not> path_char 0x3F" "\<not> path_char 0x23" "\<not> host_char 0x3F" "\<not> host_char 0x23"
  by (simp_all add: host_char_def path_char_def)

lemma plain_rest_key:
  assumes r: "plain_rest scheme s = Some u" and q: "plain_tail q"
  shows "plain_rest scheme (drop (length scheme) (origin u @ pathname u @ q)) = Some u"
proof -
  define host where "host = takeWhile host_char s"
  define path where "path = takeWhile path_char (dropWhile host_char s)"
  define path' where "path' = (if path = [] then [0x2F] else path)"
  from r have ok: "plain_host host" "path = [] \<or> hd path = 0x2F"
    and u: "u = \<lparr>origin = scheme @ host, pathname = path'\<rparr>"
    by (auto simp: plain_rest_def Let_def host_def path_def path'_def split: if_splits)
  have hostc: "\<forall>c \<in> set host. host_char c"
    unfolding host_def by (auto dest: set_takeWhileD)
  have pathc: "\<forall>c \<in> set path. path_char c"
    unfolding path_def by (auto dest: set_takeWhileD)
  have p'ne: "path' \<noteq> []" and p'hd: "hd path' = 0x2F" and p'c: "\<forall>c \<in> set path'. path_char c"
    using ok(2) pathc by (auto simp: path'_def slash_chars)
  have p'stop: "\<not> host_char (hd (path' @ q))"
    using p'ne p'hd by (simp add: slash_chars)
  have qstop: "q = [] \<or> \<not> path_char (hd q)"
    using q by (auto simp: plain_tail_def tail_chars)
  have d: "drop (length scheme) (origin u @ pathname u @ q) = host @ path' @ q"
    by (simp add: u)
  have t1: "takeWhile host_char (host @ path' @ q) = host"
  proof -
    from p'ne obtain a as where "path' @ q = a # as" by (cases path') auto
    with p'stop hostc show ?thesis by (simp add: takeWhile_append2)
  qed
  have d1: "dropWhile host_char (host @ path' @ q) = path' @ q"
  proof -
    from p'ne obtain a as where "path' @ q = a # as" by (cases path') auto
    with p'stop hostc show ?thesis by (simp add: dropWhile_append2)
  qed
  have t2: "takeWhile path_char (path' @ q) = path'"
    using p'c qstop by (cases q) (simp_all add: takeWhile_append2)
  have d2: "dropWhile path_char (path' @ q) = q"
    using p'c qstop by (cases q) (simp_all add: dropWhile_append2)
  show ?thesis
    unfolding d
    using ok(1) p'ne p'hd q
    by (simp add: plain_rest_def Let_def t1 d1 t2 d2 u)
qed

lemma scheme_lengths: "length (ascii ''https://'') = 8" "length (ascii ''http://'') = 7"
  by (simp_all add: ascii_def)

lemma http_not_https: "\<not> prefix (ascii ''https://'') (ascii ''http://'' @ s)"
  by (simp add: ascii_def)

lemma URL_plain_key:
  assumes p: "URL_plain x = Some u" and q: "plain_tail q"
  shows "URL_plain (origin u @ pathname u @ q) = Some u"
proof (cases "prefix (ascii ''https://'') x")
  case True
  with p have r: "plain_rest (ascii ''https://'') (drop 8 x) = Some u"
    by (simp add: URL_plain_def)
  then obtain rest where o: "origin u = ascii ''https://'' @ rest"
    by (auto simp: plain_rest_def Let_def split: if_splits)
  have pre: "prefix (ascii ''https://'') (origin u @ pathname u @ q)"
    unfolding o by simp
  from plain_rest_key [OF r q] pre show ?thesis
    by (simp add: URL_plain_def scheme_lengths)
next
  case False
  with p have h: "prefix (ascii ''http://'') x"
    and r: "plain_rest (ascii ''http://'') (drop 7 x) = Some u"
    by (auto simp: URL_plain_def split: if_splits)
  from r obtain rest where o: "origin u = ascii ''http://'' @ rest"
    by (auto simp: plain_rest_def Let_def split: if_splits)
  have pre: "prefix (ascii ''http://'') (origin u @ pathname u @ q)"
    unfolding o by simp
  have npre: "\<not> prefix (ascii ''https://'') (origin u @ pathname u @ q)"
    unfolding o using http_not_https by simp
  from plain_rest_key [OF r q] pre npre show ?thesis
    by (simp add: URL_plain_def scheme_lengths)
qed

lemma normalizeHref_plain:
  "URL_plain x = Some u \<Longrightarrow> normalizeHref (URL_with other) x = origin u @ pathname u"
  by (simp add: normalizeHref_def URL_with_def)

lemma normalizeHref_plain_key:
  assumes p: "URL_plain x = Some u" and q: "plain_tail q"
  shows "normalizeHref (URL_with other) (normalizeHref (URL_with other) x @ q)
           = normalizeHref (URL_with other) x"
  using normalizeHref_plain [OF URL_plain_key [OF p q], of other] normalizeHref_plain [OF p, of other]
  by simp

lemma URL_plain_example:
  "URL_plain (ascii ''https://s.kz/p?x=1#y'') = Some \<lparr>origin = ascii ''https://s.kz'', pathname = ascii ''/p''\<rparr>"
  "URL_plain (ascii ''https://s.kz/p?x=2'') = Some \<lparr>origin = ascii ''https://s.kz'', pathname = ascii ''/p''\<rparr>"
  by (simp_all add: URL_plain_def plain_rest_def plain_host_def plain_tail_def host_char_def
      path_char_def ascii_def Let_def)

text \<open>
  C9, amended. With a parser that is the standard's on the plain \<open>http\<close> and \<open>https\<close>
  URLs: at every plain URL \<open>normalizeHref\<close> applied twice gives what it gives once, and
  the key followed by any query or fragment has the same key again; at every href that
  the parser rejects, \<open>normalizeHref\<close> applied twice gives what it gives once; and the two
  hrefs \<open>https://s.kz/p?x=1#y\<close> and \<open>https://s.kz/p?x=2\<close>, which differ in query and
  fragment only, have the key \<open>https://s.kz/p\<close>.
\<close>

theorem normalizeHref_idempotent_on_plain:
  "(URL_plain x \<noteq> None \<longrightarrow>
      normalizeHref (URL_with other) (normalizeHref (URL_with other) x)
        = normalizeHref (URL_with other) x
      \<and> (\<forall>q. q = [] \<or> hd q = 0x3F \<or> hd q = 0x23 \<longrightarrow>
            normalizeHref (URL_with other) (normalizeHref (URL_with other) x @ q)
              = normalizeHref (URL_with other) x))
   \<and> ((\<exists>e. URL_with other x = Inl e) \<longrightarrow>
        normalizeHref (URL_with other) (normalizeHref (URL_with other) x)
          = normalizeHref (URL_with other) x)
   \<and> normalizeHref (URL_with other) (ascii ''https://s.kz/p?x=1#y'') = ascii ''https://s.kz/p''
   \<and> normalizeHref (URL_with other) (ascii ''https://s.kz/p?x=2'') = ascii ''https://s.kz/p''"
proof -
  have 1: "normalizeHref (URL_with other) (normalizeHref (URL_with other) x @ q)
              = normalizeHref (URL_with other) x"
    if "URL_plain x \<noteq> None" and "q = [] \<or> hd q = 0x3F \<or> hd q = 0x23" for q
  proof -
    from that(1) obtain u where u: "URL_plain x = Some u" by auto
    from that(2) have "plain_tail q" by (simp add: plain_tail_def)
    from normalizeHref_plain_key [OF u this] show ?thesis .
  qed
  have 2: "normalizeHref (URL_with other) (normalizeHref (URL_with other) x)
          = normalizeHref (URL_with other) x"
    if "URL_with other x = Inl e" for e
    using that by (simp add: normalizeHref_def)
  have 3: "normalizeHref (URL_with other) (ascii ''https://s.kz/p?x=1#y'') = ascii ''https://s.kz/p''"
    "normalizeHref (URL_with other) (ascii ''https://s.kz/p?x=2'') = ascii ''https://s.kz/p''"
    by (simp_all add: normalizeHref_plain [OF URL_plain_example(1)]
        normalizeHref_plain [OF URL_plain_example(2)] key_append)
  from 1 [of "[]"] 1 2 3 show ?thesis by auto
qed

theorem normalizeHref_idempotent_on_plain_witness:
  "URL_plain (ascii ''https://s.kz/p?x=1#y'')
     = Some \<lparr>origin = ascii ''https://s.kz'', pathname = ascii ''/p''\<rparr>
   \<and> normalizeHref (URL_with URL_examples)
         (normalizeHref (URL_with URL_examples) (ascii ''https://s.kz/p?x=1#y''))
       = normalizeHref (URL_with URL_examples) (ascii ''https://s.kz/p?x=1#y'')
   \<and> normalizeHref (URL_with URL_examples)
         (normalizeHref (URL_with URL_examples) (ascii ''https://s.kz/p?x=1#y'') @ ascii ''?x=2'')
       = normalizeHref (URL_with URL_examples) (ascii ''https://s.kz/p?x=1#y'')
   \<and> URL_with URL_examples (ascii ''/p?x=1'') = Inl (Error (ascii ''Invalid URL''))
   \<and> normalizeHref (URL_with URL_examples) (normalizeHref (URL_with URL_examples) (ascii ''/p?x=1''))
       = normalizeHref (URL_with URL_examples) (ascii ''/p?x=1'')"
proof -
  have p: "URL_plain (ascii ''https://s.kz/p?x=1#y'') \<noteq> None"
    by (simp add: URL_plain_example)
  have q: "hd (ascii ''?x=2'') = 0x3F"
    by (simp add: ascii_def)
  have n: "URL_plain (ascii ''/p?x=1'') = None"
    by (simp add: URL_plain_def ascii_def)
  have r: "URL_with URL_examples (ascii ''/p?x=1'') = Inl (Error (ascii ''Invalid URL''))"
    by (simp add: URL_with_def n URL_examples_relative)
  from normalizeHref_idempotent_on_plain [of "ascii ''https://s.kz/p?x=1#y''" URL_examples]
    normalizeHref_idempotent_on_plain [of "ascii ''/p?x=1''" URL_examples]
    p q r URL_plain_example(1)
  show ?thesis by blast
qed

text \<open>
  The href of the counterexample is not a plain URL, and its key is not one either: the
  parser of the amended statement treats both as the table does.
\<close>

lemma URL_with_view_source:
  "URL_with URL_examples (ascii ''view-source:https://ticketon.kz/a/event/1'')
     = URL_examples (ascii ''view-source:https://ticketon.kz/a/event/1'')"
  "URL_with URL_examples (ascii ''nullhttps://ticketon.kz/a/event/1'')
     = URL_examples (ascii ''nullhttps://ticketon.kz/a/event/1'')"
  by (simp_all add: URL_with_def URL_plain_def ascii_def)


section \<open>The decision to notify\<close>

lemma shouldNotify_iff:
  "shouldNotify st key force
     \<longleftrightarrow> force \<or> DAList.lookup (notified st) key = None \<or> DAList.lookup (notified st) key = Some 0"
  by (auto simp: shouldNotify_def split: option.splits)

lemma lookup_recordNotified:
  "DAList.lookup (notified (recordNotified st key now)) k
     = (if k = key then Some now else DAList.lookup (notified st) k)"
  by (simp add: recordNotified_def lookup_update)

text \<open>
  A key that is absent is notified, and once it is recorded at a clock that does not read
  0 it is skipped.
\<close>

lemma shouldNotify_then_recorded:
  assumes "DAList.lookup (notified st) key = None" and "now \<noteq> 0"
  shows "shouldNotify st key False \<and> \<not> shouldNotify (recordNotified st key now) key False"
  using assms by (simp add: shouldNotify_iff lookup_recordNotified)


section \<open>The dedup key and the changed flag\<close>





lemma example_nonempty:
  "ascii ''https://ticketon.kz/a/event/1'' \<noteq> []" "ascii ''https://ticketon.kz/a/event/2'' \<noteq> []"
  "ascii ''Real Madrid'' \<noteq> []" "ascii ''Kairat - Real'' \<noteq> []"
  "ascii ''https://ticketon.kz/a/event/2'' \<noteq> ascii ''https://ticketon.kz/a/event/1''"
  "ascii ''https://ticketon.kz/a/event/1'' \<noteq> ascii ''https://ticketon.kz/a/event/2''"
  by (simp_all add: ascii_def)





lemma changed_flag_fingerprints:
  assumes "\<And>prior. DAList.lookup (lastHash st) key = Some prior \<Longrightarrow> prior \<noteq> []"
  shows "changed_flag (DAList.lookup (lastHash st) key) h
           \<longleftrightarrow> (\<exists>prior. DAList.lookup (lastHash st) key = Some prior \<and> prior \<noteq> h)"
  using assms by (auto simp: changed_flag_def split: option.splits)

lemma fingerprints_stored_iff:
  "fingerprints_stored st \<longleftrightarrow> (\<forall>k h. DAList.lookup (lastHash st) k = Some h \<longrightarrow> h \<noteq> [])"
proof -
  have "(k, h) \<in> set (DAList.impl_of (lastHash st)) \<longleftrightarrow> DAList.lookup (lastHash st) k = Some h"
    for k h
    unfolding lookup.rep_eq using impl_of_distinct [of "lastHash st"] by simp
  then show ?thesis
    unfolding fingerprints_stored_def by force
qed




lemma fingerprints_stored_prune:
  "fingerprints_stored (prune mul sub ttl now st) = fingerprints_stored st"
  by (simp add: fingerprints_stored_iff prune_def Let_def)








section \<open>Fingerprinting\<close>

lemma gotoWithRetry_2:
  "gotoWithRetry g 2
     = (case g 0 of None \<Rightarrow> Inr ()
        | Some e \<Rightarrow> (case g 1 of None \<Rightarrow> Inr () | Some e1 \<Rightarrow> Inl e1))"
  by (simp add: gotoWithRetry_def numeral_2_eq_2 split: option.splits)

text \<open>
  C7, as stated, fails: when \<open>context.newPage()\<close> rejects, \<open>fingerprintEventPage\<close>
  rejects with the same error.
\<close>

theorem fingerprintEventPage_raises:
  "fingerprintEventPage
     \<lparr>newPage = Some (Error (ascii ''browser has been closed'')),
      goto = (\<lambda>i. None),
      evaluate = Inl (Error (ascii ''unused'')),
      close = None\<rparr>
     (ascii ''https://ticketon.kz/a/event/1'')
   = Inl (Error (ascii ''browser has been closed''))"
  by (simp add: fingerprintEventPage_def)

text \<open>
  C7, amended. When the page opens and closes without error, \<open>fingerprintEventPage\<close>
  returns a digest: that of the href alone when both attempts of navigation fail or the
  extraction fails, that of the extracted fields otherwise. An error of \<open>newPage\<close> or of
  \<open>page.close()\<close> is the outcome of the call.
\<close>

theorem fingerprintEventPage_fallback:
  "(newPage b = None \<and> close b = None \<longrightarrow>
      ((goto b 0 \<noteq> None \<and> goto b 1 \<noteq> None) \<or> (\<exists>e. evaluate b = Inl e)
         \<longrightarrow> fingerprintEventPage b x = Inr (hash x))
      \<and> (\<forall>fp. (goto b 0 = None \<or> goto b 1 = None) \<and> evaluate b = Inr fp
         \<longrightarrow> fingerprintEventPage b x = Inr (hash (fpString fp))))
   \<and> (\<forall>e. newPage b = Some e \<longrightarrow> fingerprintEventPage b x = Inl e)
   \<and> (\<forall>e. newPage b = None \<and> close b = Some e \<longrightarrow> fingerprintEventPage b x = Inl e)"
  by (auto simp: fingerprintEventPage_def gotoWithRetry_2 Let_def split: option.splits sum.splits)

theorem fingerprintEventPage_fallback_witness:
  "fingerprintEventPage
     \<lparr>newPage = None, goto = (\<lambda>i. Some (Error (ascii ''timeout''))),
      evaluate = Inl (Error (ascii ''unused'')), close = None\<rparr>
     (ascii ''hello'')
   = Inr (ascii ''99162322'')
   \<and> fingerprintEventPage
     \<lparr>newPage = None, goto = (\<lambda>i. if i = 0 then Some (Error (ascii ''timeout'')) else None),
      evaluate = Inr \<lparr>title = ascii ''h'', dates = [], buttons = ascii ''e'', prices = [],
                       body = ascii ''llo''\<rparr>,
      close = None\<rparr>
     (ascii ''https://ticketon.kz/a/event/1'')
   = Inr (hash (ascii ''h || e || llo''))
   \<and> fingerprintEventPage
     \<lparr>newPage = None, goto = (\<lambda>i. None),
      evaluate = Inl (Error (ascii ''unused'')), close = Some (Error (ascii ''closed''))\<rparr>
     (ascii ''hello'')
   = Inl (Error (ascii ''closed''))"
proof -
  have h: "hash (ascii ''hello'') = ascii ''99162322''"
    by (simp add: hash_def ascii_def ToInt32_def String_int_def digits.simps)
  have f: "fpString \<lparr>title = ascii ''h'', dates = [], buttons = ascii ''e'', prices = [],
                       body = ascii ''llo''\<rparr> = ascii ''h || e || llo''"
    by (simp add: fpString_def filter_Boolean_def ascii_def)
  show ?thesis
    using fingerprintEventPage_fallback
      [of "\<lparr>newPage = None, goto = (\<lambda>i. Some (Error (ascii ''timeout''))),
            evaluate = Inl (Error (ascii ''unused'')), close = None\<rparr>" "ascii ''hello''"]
      fingerprintEventPage_fallback
      [of "\<lparr>newPage = None, goto = (\<lambda>i. if i = 0 then Some (Error (ascii ''timeout'')) else None),
      evaluate = Inr \<lparr>title = ascii ''h'', dates = [], buttons = ascii ''e'', prices = [],
                       body = ascii ''llo''\<rparr>,
      close = None\<rparr>" "ascii ''https://ticketon.kz/a/event/1''"]
      fingerprintEventPage_fallback
      [of "\<lparr>newPage = None, goto = (\<lambda>i. None),
      evaluate = Inl (Error (ascii ''unused'')), close = Some (Error (ascii ''closed''))\<rparr>" "ascii ''hello''"]
    by (simp add: h f)
qed


section \<open>Errors within a cycle\<close>













lemma example_world_sel:
  "toLowerCase (example_world send) = toLowerCase_latin"
  "new_URL (example_world send) = URL_examples"
  "goto_target (example_world send) = (\<lambda>target i. None)"
  "page_anchors (example_world send) = (\<lambda>target. Inr [example_anchor1, example_anchor2])"
  "page_url (example_world send) = (\<lambda>target. target)"
  "sendMessage (example_world send) = send"
  "writeFile (example_world send) = (\<lambda>st. None)"
  "Date_now (example_world send) = (\<lambda>target key. 1700000000000)"
  by (simp_all add: example_world_def)

lemma example_config_sel:
  "rules example_config = [[ascii ''kairat'', ascii ''real''], [ascii ''real madrid'']]"
  "FORCE_NOTIFY example_config = False"
  "DEEP_CHECK example_config = False"
  "CHAT_ID example_config = ascii ''42''"
  by (simp_all add: example_config_def)

lemma example_process_item:
  "process_item example_config (example_world send) example_target st
     \<lparr>href = href a, text_js = text_js a, normHref = href a\<rparr>
   = (if \<not> shouldNotify st (href a) False then (None, st, [])
      else if text_js a = [] \<or> href a = [] then process_item example_config (example_world send) example_target st
          \<lparr>href = href a, text_js = text_js a, normHref = href a\<rparr>
      else case send (example_message a) of
             Some e \<Rightarrow> (Some e, st, [Send (example_message a)])
           | None \<Rightarrow>
               (None, recordNotified st (href a) 1700000000000,
                [Send (example_message a), Save (recordNotified st (href a) 1700000000000)]))"
  by (simp add: process_item_def resolveKey_def example_world_sel example_config_sel
      compose_message_def example_message_def Let_def split: option.splits)

lemma example_hrefs:
  "href example_anchor1 = ascii ''https://ticketon.kz/a/event/1''"
  "href example_anchor2 = ascii ''https://ticketon.kz/a/event/2''"
  "text_js example_anchor1 = ascii ''Real Madrid''"
  "text_js example_anchor2 = ascii ''Kairat - Real''"
  by (simp_all add: example_anchor1_def example_anchor2_def)








section \<open>A recorded key that is notified again\<close>

text \<open>
  After \<open>prune\<close> with a finite cutoff above 0, which is what a finite TTL below the clock
  gives, no entry of \<open>notified\<close> is 0, and a key that is present is skipped when
  \<open>FORCE_NOTIFY\<close> is off.
\<close>

lemma shouldNotify_after_prune:
  assumes c: "prune_cutoff mul sub ttl_hours now = Num cutoff"
    and pos: "0 < cutoff"
    and present: "DAList.lookup (notified (prune mul sub ttl_hours now st)) key = Some ts"
  shows "ts \<noteq> 0 \<and> \<not> shouldNotify (prune mul sub ttl_hours now st) key False"
proof -
  from present pos have "ts \<noteq> 0"
    unfolding lookup_prune c by (auto simp: js_less_def split: option.splits if_splits)
  with present show ?thesis
    by (simp add: shouldNotify_def)
qed

lemma process_item_ttl:
  "process_item (c\<lparr>NOTIFY_TTL_HOURS := ttl\<rparr>) w target st it = process_item c w target st it"
  by (simp add: process_item_def split: sum.splits prod.splits)

text \<open>
  C1 fails on this run. \<open>state.json\<close> records the key \<open>https://ticketon.kz/a/event/1\<close>
  with the timestamp 0 and \<open>NOTIFY_TTL_HOURS\<close> is not a number, so that the cutoff of
  \<open>prune\<close> is \<open>NaN\<close>; \<open>DEEP_CHECK\<close> and \<open>FORCE_NOTIFY\<close> are off, and the page has an anchor
  to that href with the text \<open>Real Madrid\<close>. After \<open>prune\<close> the key is still present in
  \<open>notified\<close>, the decision for it is true, and the item is notified: its message goes to
  the bot, and the key is recorded and saved again.
\<close>

theorem zero_timestamp_is_notified_again:
  "DAList.lookup
      (notified (prune example_mul example_sub NaN 1700000000000
         \<lparr>notified = DAList.update (ascii ''https://ticketon.kz/a/event/1'') 0 DAList.empty,
          lastHash = DAList.empty\<rparr>))
      (ascii ''https://ticketon.kz/a/event/1'') = Some 0
   \<and> shouldNotify
        (prune example_mul example_sub NaN 1700000000000
           \<lparr>notified = DAList.update (ascii ''https://ticketon.kz/a/event/1'') 0 DAList.empty,
            lastHash = DAList.empty\<rparr>)
        (ascii ''https://ticketon.kz/a/event/1'') False
   \<and> process_item (example_config\<lparr>NOTIFY_TTL_HOURS := NaN\<rparr>) (example_world (\<lambda>msg. None))
        example_target
        (prune example_mul example_sub NaN 1700000000000
           \<lparr>notified = DAList.update (ascii ''https://ticketon.kz/a/event/1'') 0 DAList.empty,
            lastHash = DAList.empty\<rparr>)
        \<lparr>href = ascii ''https://ticketon.kz/a/event/1'', text_js = ascii ''Real Madrid'',
         normHref = ascii ''https://ticketon.kz/a/event/1''\<rparr>
     = (None,
        recordNotified
          \<lparr>notified = DAList.update (ascii ''https://ticketon.kz/a/event/1'') 0 DAList.empty,
           lastHash = DAList.empty\<rparr>
          (ascii ''https://ticketon.kz/a/event/1'') 1700000000000,
        [Send (example_message example_anchor1),
         Save (recordNotified
                 \<lparr>notified = DAList.update (ascii ''https://ticketon.kz/a/event/1'') 0 DAList.empty,
                  lastHash = DAList.empty\<rparr>
                 (ascii ''https://ticketon.kz/a/event/1'') 1700000000000)])"
proof -
  let ?k = "ascii ''https://ticketon.kz/a/event/1''"
  let ?st = "\<lparr>notified = DAList.update ?k 0 DAList.empty, lastHash = DAList.empty\<rparr>"
  have p: "prune example_mul example_sub NaN 1700000000000 ?st = ?st"
    by (rule prune_NaN_cutoff) (simp add: prune_cutoff_def example_mul_def example_sub_def)
  have s: "shouldNotify ?st ?k False"
    by (simp add: shouldNotify_def)
  have i: "process_item example_config (example_world (\<lambda>msg. None)) example_target ?st
        \<lparr>href = ?k, text_js = ascii ''Real Madrid'', normHref = ?k\<rparr>
     = (None, recordNotified ?st ?k 1700000000000,
        [Send (example_message example_anchor1), Save (recordNotified ?st ?k 1700000000000)])"
    using example_process_item [of "\<lambda>msg. None" ?st example_anchor1] s
    by (simp add: example_hrefs example_nonempty)
  show ?thesis
    unfolding p process_item_ttl using s i by simp
qed


end
